theory Spec2Isabelle
  imports Main "HOL-Library.Sublist" "HOL-Library.Multiset"
begin

section \<open>Python strings\<close>

text \<open>
  A Python \<open>str\<close> is a sequence of code points. It is modelled as a \<^typ>\<open>string\<close> whose
  characters are the code points below 256; on these, \<open>str.lower\<close> moves \<open>A\<close>..\<open>Z\<close> and the
  Latin-1 capitals (192..214, 216..222) up by 32 and leaves every other code point alone, and
  the whitespace of \<open>str.split\<close>, \<open>str.strip\<close> and of \<open>\s\<close> in \<open>re\<close> is the set
  9..13, 28..32, 133, 160.
\<close>

definition lower_char :: "char \<Rightarrow> char" where
  "lower_char c =
     (let n = (of_char c :: nat)
      in if (65 \<le> n \<and> n \<le> 90) \<or> (192 \<le> n \<and> n \<le> 214) \<or> (216 \<le> n \<and> n \<le> 222)
         then char_of (n + 32) else c)"

definition lower :: "string \<Rightarrow> string" where
  "lower s = map lower_char s"

definition isspace :: "char \<Rightarrow> bool" where
  "isspace c = (of_char c \<in> {9, 10, 11, 12, 13, 28, 29, 30, 31, 32, 133, 160 :: nat})"

text \<open>\<open>s.split()\<close>: the maximal runs of non-whitespace, in order; \<open>w\<close> is the run being read.\<close>

fun split_run :: "string \<Rightarrow> string \<Rightarrow> string list" where
  "split_run w [] = (if w = [] then [] else [w])"
| "split_run w (c # cs) =
     (if isspace c then (if w = [] then split_run [] cs else w # split_run [] cs)
      else split_run (w @ [c]) cs)"

definition str_split :: "string \<Rightarrow> string list" where
  "str_split s = split_run [] s"

text \<open>\<open>s.strip()\<close> and \<open>s.strip(chars)\<close>.\<close>

definition strip_chars :: "(char \<Rightarrow> bool) \<Rightarrow> string \<Rightarrow> string" where
  "strip_chars p s = rev (dropWhile p (rev (dropWhile p s)))"

definition strip :: "string \<Rightarrow> string" where
  "strip s = strip_chars isspace s"

text \<open>\<open>sep.join(xs)\<close>.\<close>

fun join :: "string \<Rightarrow> string list \<Rightarrow> string" where
  "join sep [] = []"
| "join sep [x] = x"
| "join sep (x # y # ys) = x @ sep @ join sep (y # ys)"

text \<open>\<open>s.startswith(p)\<close> and the substring test \<open>sub in s\<close>.\<close>

fun startswith :: "string \<Rightarrow> string \<Rightarrow> bool" where
  "startswith s [] = True"
| "startswith [] (p # ps) = False"
| "startswith (c # cs) (p # ps) = (c = p \<and> startswith cs ps)"

fun str_in :: "string \<Rightarrow> string \<Rightarrow> bool" where
  "str_in sub [] = (sub = [])"
| "str_in sub (c # cs) = (startswith (c # cs) sub \<or> str_in sub cs)"

text \<open>\<open>any(w in s for w in ws)\<close>.\<close>

definition any_in :: "string list \<Rightarrow> string \<Rightarrow> bool" where
  "any_in ws s = list_ex (\<lambda>w. str_in w s) ws"

text \<open>
  \<open>for w in ws: if w in s: ...; break\<close>: the first element of \<open>ws\<close> that occurs in \<open>s\<close>.
\<close>

fun first_in :: "string list \<Rightarrow> string \<Rightarrow> string option" where
  "first_in [] s = None"
| "first_in (w # ws) s = (if str_in w s then Some w else first_in ws s)"

text \<open>
  \<open>list(dict.fromkeys(xs))\<close>: the keys of a dictionary filled from \<open>xs\<close> in order. A key already
  present keeps its place; a new key goes to the end.
\<close>

fun fromkeys_acc :: "'a list \<Rightarrow> 'a list \<Rightarrow> 'a list" where
  "fromkeys_acc ks [] = ks"
| "fromkeys_acc ks (x # xs) = fromkeys_acc (if x \<in> set ks then ks else ks @ [x]) xs"

definition fromkeys :: "'a list \<Rightarrow> 'a list" where
  "fromkeys xs = fromkeys_acc [] xs"

section \<open>Query expansion (agent.py, expand_query)\<close>

definition faculty_words :: "string list" where
  "faculty_words = [''chairperson'', ''chair person'', ''head of department'', ''hod'', ''dean'',
                    ''faculty'', ''professor'', ''lecturer'']"

definition expansion_depts :: "string list" where
  "expansion_depts = [''mathematics'', ''computer science'', ''electrical'', ''mechanical'',
                      ''civil'', ''chemical'', ''industrial'', ''architecture'', ''city planning'',
                      ''regional planning'']"

definition program_words :: "string list" where
  "program_words = [''m.sc'', ''msc'', ''phd'', ''bachelor'', ''master'', ''program'', ''degree'']"

definition expansion_programs :: "string list" where
  "expansion_programs = [''artificial intelligence'', ''ai'', ''mining engineering'',
                         ''transportation'', ''geological engineering'', ''geotechnical'']"

definition admission_words :: "string list" where
  "admission_words = [''admission'', ''apply'', ''eligibility'', ''requirement'']"

text \<open>The list \<open>queries\<close> as it stands at line 65, before deduplication and truncation.\<close>

definition expand_candidates :: "string \<Rightarrow> string list" where
  "expand_candidates original_query =
     (let query_lower = lower original_query;
          queries0 = [original_query];
          queries1 =
            (if any_in faculty_words query_lower
             then (let qs = queries0 @ [''faculty list '' @ original_query,
                                        ''staff members '' @ original_query]
                   in case first_in expansion_depts query_lower of
                        None \<Rightarrow> qs
                      | Some dept \<Rightarrow> qs @ [dept @ '' department faculty'',
                                            dept @ '' chairperson head''])
             else queries0);
          queries2 =
            (if any_in program_words query_lower
             then (let qs = queries1 @ [''program offered by department '' @ original_query]
                   in case first_in expansion_programs query_lower of
                        None \<Rightarrow> qs
                      | Some program \<Rightarrow> qs @ [program @ '' program department''])
             else queries1);
          queries3 =
            (if any_in admission_words query_lower
             then queries2 @ [''admission requirements '' @ original_query,
                              ''eligibility criteria '' @ original_query]
             else queries2);
          queries4 =
            (if str_in ''transportation'' query_lower
             then queries3 @ [''civil engineering transportation'',
                              ''transportation engineering department'']
             else queries3);
          queries5 =
            (if str_in ''geological'' query_lower \<or> str_in ''geotechnical'' query_lower
             then queries4 @ [''mining geological engineering'',
                              ''civil geotechnical engineering'']
             else queries4)
      in queries5)"

definition expand_query :: "string \<Rightarrow> string list" where
  "expand_query original_query = take 4 (fromkeys (expand_candidates original_query))"

section \<open>Chunks and the external collaborators\<close>

text \<open>
  A retrieved chunk is a LangChain document: its text and a metadata dictionary. The keys
  agent.py reads are typed as ingest.py writes them (lines 102 to 112): \<open>departments\<close> and
  \<open>section_type\<close> are strings, \<open>page\<close> is the loader's page number or the string
  \<open>unknown\<close>. \<open>None\<close> is an absent key.
\<close>

datatype page_value = PageInt int | PageStr string

record metadata =
  departments :: "string option"
  section_type :: "string option"
  page :: "page_value option"

record document =
  page_content :: string
  metadata :: metadata

text \<open>
  A raised exception: a \<open>ValueError\<close>, or any other subclass of \<open>Exception\<close>, with the text
  that \<open>str(e)\<close> gives.
\<close>

datatype exn = ValueError string | Exception string

fun exn_str :: "exn \<Rightarrow> string" where
  "exn_str (ValueError m) = m"
| "exn_str (Exception m) = m"

text \<open>
  The vector index (\<open>retriever.invoke\<close>), the language model (\<open>llm.invoke(p).content\<close>) and
  Python's built-in \<open>hash\<close> on strings are parameters of the model. The first two return or
  raise; \<open>hash\<close> is any function from strings to integers. The progress lines that the
  code writes with \<open>print\<close> are not part of the model.
\<close>

type_synonym retriever = "string \<Rightarrow> exn + document list"
type_synonym llm = "string \<Rightarrow> exn + string"
type_synonym hash = "string \<Rightarrow> int"

section \<open>Retrieval with deduplication (agent.py, lines 80 to 101)\<close>

text \<open>
  The inner loop over the documents of one query. The state is the pair
  \<open>(all_docs, seen_content)\<close>.
\<close>

fun dedup_docs :: "hash \<Rightarrow> document list \<Rightarrow> document list \<times> int set
                     \<Rightarrow> document list \<times> int set" where
  "dedup_docs h [] st = st"
| "dedup_docs h (doc # docs) (all_docs, seen_content) =
     (let content_hash = h (take 100 (page_content doc))
      in if content_hash \<notin> seen_content
         then dedup_docs h docs (all_docs @ [doc], insert content_hash seen_content)
         else dedup_docs h docs (all_docs, seen_content))"

text \<open>The outer loop over the expanded queries; a retrieval that raises ends it.\<close>

fun retrieve_all :: "hash \<Rightarrow> retriever \<Rightarrow> string list \<Rightarrow> document list \<times> int set
                       \<Rightarrow> exn + document list \<times> int set" where
  "retrieve_all h invoke [] st = Inr st"
| "retrieve_all h invoke (q # qs) st =
     (case invoke q of
        Inl e \<Rightarrow> Inl e
      | Inr docs \<Rightarrow> retrieve_all h invoke qs (dedup_docs h docs st))"

section \<open>Re-ranking (agent.py, lines 110 to 151)\<close>

definition role_query_words :: "string list" where
  "role_query_words = [''chairperson'', ''faculty'', ''head'', ''dean'', ''professor'']"

definition faculty_terms :: "string list" where
  "faculty_terms = [''dr.'', ''prof.'', ''chairperson'', ''head of department'', ''professor'',
                    ''lecturer'']"

definition dept_words :: "string list" where
  "dept_words = [''mathematics'', ''computer'', ''electrical'', ''civil'', ''mechanical'',
                 ''mining'']"

text \<open>\<open>range(n)\<close> for an integer \<open>n\<close>: empty when \<open>n\<close> is not positive.\<close>

definition py_range :: "int \<Rightarrow> nat list" where
  "py_range n = [0..<nat n]"

text \<open>The body of the scoring loop (lines 116 to 145): the score of one document.\<close>

definition relevance_score :: "string \<Rightarrow> document \<Rightarrow> int" where
  "relevance_score query doc =
     (let query_lower = lower query;
          query_keywords = set (str_split query_lower);
          content_lower = lower (page_content doc);
          score0 = (0 :: int);
          score1 =
            fold (\<lambda>len score.
                    let words = str_split query_lower
                    in fold (\<lambda>i score.
                               let phrase = join '' '' (take len (drop i words))
                               in if str_in phrase content_lower
                                  then score + int len * 10 else score)
                         (py_range (int (length words) - int len + 1)) score)
              [4, 3, 2] score0;
          doc_words = set (str_split content_lower);
          keyword_matches = query_keywords \<inter> doc_words;
          score2 = score1 + int (card keyword_matches) * 2;
          score3 =
            (if any_in role_query_words query_lower
             then fold (\<lambda>term score. if str_in term content_lower then score + 15 else score)
                    faculty_terms score2
             else score2);
          dept_meta = lower (case departments (metadata doc) of None \<Rightarrow> [] | Some d \<Rightarrow> d);
          score4 =
            fold (\<lambda>dept_word score.
                    if str_in dept_word query_lower
                       \<and> str_in dept_word (content_lower @ '' '' @ dept_meta)
                    then score + 10 else score)
              dept_words score3
      in score4)"

text \<open>
  \<open>xs.sort(reverse=True, key=key)\<close>: Python's sort is stable, also with \<open>reverse=True\<close>, so
  the result is in descending key order with equal keys left in their original order.
\<close>

definition sort_reverse :: "('a \<Rightarrow> int) \<Rightarrow> 'a list \<Rightarrow> 'a list" where
  "sort_reverse key xs = sort_key (\<lambda>x. - key x) xs"

definition rerank :: "string \<Rightarrow> document list \<Rightarrow> document list" where
  "rerank query all_docs =
     (let scored_docs = map (\<lambda>doc. (relevance_score query doc, doc)) all_docs;
          sorted_docs = sort_reverse fst scored_docs;
          top_docs = map snd (take 6 sorted_docs)
      in top_docs)"

section \<open>The search result (agent.py, search_prospectus)\<close>

text \<open>\<open>str(n)\<close> for an integer.\<close>

fun str_nat :: "nat \<Rightarrow> string" where
  "str_nat n = (if n < 10 then [char_of (48 + n)]
                else str_nat (n div 10) @ [char_of (48 + n mod 10)])"

declare str_nat.simps [simp del]

definition str_int :: "int \<Rightarrow> string" where
  "str_int i = (if i < 0 then ''-'' @ str_nat (nat (- i)) else str_nat (nat i))"

fun str_page :: "page_value \<Rightarrow> string" where
  "str_page (PageInt i) = str_int i"
| "str_page (PageStr s) = s"

record source =
  src_page :: page_value
  src_department :: string
  src_section :: string

record search_result =
  found :: bool
  context_text :: string
  sources :: "source list"
  doc_count :: "nat option"

definition doc_dept :: "document \<Rightarrow> string" where
  "doc_dept doc = (case departments (metadata doc) of None \<Rightarrow> ''General'' | Some d \<Rightarrow> d)"

definition doc_section :: "document \<Rightarrow> string" where
  "doc_section doc =
     (case section_type (metadata doc) of None \<Rightarrow> ''general_info'' | Some s \<Rightarrow> s)"

definition doc_page :: "document \<Rightarrow> page_value" where
  "doc_page doc = (case page (metadata doc) of None \<Rightarrow> PageStr ''unknown'' | Some p \<Rightarrow> p)"

text \<open>The entry of \<open>context_parts\<close> and of \<open>sources\<close> for the \<open>i\<close>-th top document.\<close>

definition context_part :: "nat \<Rightarrow> document \<Rightarrow> string" where
  "context_part i doc =
     ''[Source '' @ str_nat i @ '' - '' @ doc_dept doc @ '' - Page '' @ str_page (doc_page doc)
       @ '']\<newline>'' @ strip (page_content doc) @ ''\<newline>''"

definition source_of :: "document \<Rightarrow> source" where
  "source_of doc =
     \<lparr>src_page = doc_page doc, src_department = doc_dept doc, src_section = doc_section doc\<rparr>"

text \<open>\<open>enumerate(xs, i)\<close>.\<close>

fun enumerate_from :: "nat \<Rightarrow> 'a list \<Rightarrow> (nat \<times> 'a) list" where
  "enumerate_from i [] = []"
| "enumerate_from i (x # xs) = (i, x) # enumerate_from (Suc i) xs"

definition search_prospectus :: "hash \<Rightarrow> retriever \<Rightarrow> string \<Rightarrow> search_result" where
  "search_prospectus h invoke query =
     (case retrieve_all h invoke (expand_query query) ([], {}) of
        Inl e \<Rightarrow>
          \<lparr>found = False, context_text = ''Search error: '' @ exn_str e, sources = [],
           doc_count = None\<rparr>
      | Inr (all_docs, seen_content) \<Rightarrow>
          if all_docs = []
          then \<lparr>found = False, context_text = ''No relevant information found in the prospectus.'',
                sources = [], doc_count = None\<rparr>
          else
            (let top_docs = rerank query all_docs;
                 context_parts = map (\<lambda>(i, doc). context_part i doc) (enumerate_from 1 top_docs);
                 sources = map (\<lambda>(i, doc). source_of doc) (enumerate_from 1 top_docs);
                 context_text = join ''\<newline>'' context_parts
             in \<lparr>found = True, context_text = context_text, sources = sources,
                 doc_count = Some (length top_docs)\<rparr>))"

section \<open>The orchestrator (agent.py, run_enhanced_agent)\<close>

definition factual_indicators :: "string list" where
  "factual_indicators =
     [''which department'', ''what department'', ''who is'', ''is there'', ''tell me about'',
      ''faculty'', ''chairperson'', ''dean'', ''head of department'', ''professor'',
      ''m.sc'', ''msc'', ''phd'', ''bachelor'', ''master'', ''program'', ''offers'',
      ''admission'', ''eligibility'', ''requirement'', ''apply'',
      ''how many'', ''list of'', ''what are'']"

definition refusal_phrases :: "string list" where
  "refusal_phrases = [''don't have'', ''cannot'', ''not sure'']"

definition not_found_direct :: string where
  "not_found_direct =
     ''I couldn't find specific information about that in the UET prospectus. ''
     @ ''Could you rephrase your question or ask about a specific department?''"

definition not_found_rephrase :: string where
  "not_found_rephrase =
     ''I couldn't find specific information about that in the UET prospectus. ''
     @ ''Could you rephrase your question?''"

definition direct_answer_prompt :: "string \<Rightarrow> string \<Rightarrow> string" where
  "direct_answer_prompt user_query ctx =
     ''You are answering a question about UET based on the official prospectus.\<newline>\<newline>''
     @ ''USER QUESTION: '' @ user_query @ ''\<newline>\<newline>CONTEXT FROM PROSPECTUS:\<newline>'' @ ctx
     @ ''\<newline>\<newline>CRITICAL INSTRUCTIONS:\<newline>''
     @ ''1. Answer the question DIRECTLY using ONLY the information in the context above.\<newline>''
     @ ''2. If asked about faculty, chairperson, or dean, give the EXACT names from the context.\<newline>''
     @ ''3. If asked about which department offers a program, state the EXACT department name ''
     @ ''from the context.\<newline>''
     @ ''4. Do NOT confuse different departments - pay attention to department names in the ''
     @ ''context.\<newline>''
     @ ''5. Be specific with names, departments, and details.\<newline>''
     @ ''6. If the context mentions multiple departments, make it clear which information ''
     @ ''belongs to which department.\<newline>''
     @ ''7. Keep your answer focused and accurate.\<newline>\<newline>ANSWER:''"

definition decision_prompt :: "string \<Rightarrow> string" where
  "decision_prompt user_query =
     ''You are the UET Prospectus AI Assistant.\<newline>\<newline>USER QUERY: '' @ user_query
     @ ''\<newline>\<newline>If this is a greeting, respond naturally.\<newline>''
     @ ''If this asks for UET information, output: Action: Search [your search query]''
     @ ''\<newline>\<newline>Decision:''"

definition search_answer_prompt :: "string \<Rightarrow> string \<Rightarrow> string" where
  "search_answer_prompt user_query ctx =
     ''Based on the UET prospectus, answer this question accurately:\<newline>\<newline>''
     @ ''USER QUESTION: '' @ user_query @ ''\<newline>\<newline>CONTEXT:\<newline>'' @ ctx @ ''\<newline>\<newline>''
     @ ''Give a direct, accurate answer using only the information provided. ''
     @ ''Be specific with names and departments.\<newline>\<newline>ANSWER:''"

definition fallback_prompt :: "string \<Rightarrow> string \<Rightarrow> string" where
  "fallback_prompt user_query ctx =
     ''Answer based on this context: '' @ ctx @ ''\<newline>\<newline>Question: '' @ user_query"

text \<open>
  \<open>re.search(r"Action:\s*Search\s*\[(.+?)\]", response, re.IGNORECASE | re.DOTALL)\<close>.
  \<open>imatch p s\<close> reads the literal \<open>p\<close> (given in lower case) at the start of \<open>s\<close>, ignoring
  case, and returns what follows. \<open>match_action s\<close> is the match anchored at the start of
  \<open>s\<close> and returns group 1: the lazy \<open>.+?\<close> takes one character and then runs to the first
  closing bracket after it. \<open>re_search_action\<close> tries every start from the left.
\<close>

fun imatch :: "string \<Rightarrow> string \<Rightarrow> string option" where
  "imatch [] s = Some s"
| "imatch (p # ps) [] = None"
| "imatch (p # ps) (c # cs) = (if lower_char c = p then imatch ps cs else None)"

definition match_action :: "string \<Rightarrow> string option" where
  "match_action s =
     (case imatch ''action:'' s of
        None \<Rightarrow> None
      | Some r1 \<Rightarrow>
          (case imatch ''search'' (dropWhile isspace r1) of
             None \<Rightarrow> None
           | Some r2 \<Rightarrow>
               (case dropWhile isspace r2 of
                  [] \<Rightarrow> None
                | b # r3 \<Rightarrow>
                    (if b = CHR ''['' then
                       (case r3 of
                          [] \<Rightarrow> None
                        | c # r4 \<Rightarrow>
                            (if CHR '']'' \<in> set r4
                             then Some (c # takeWhile (\<lambda>x. x \<noteq> CHR '']'') r4)
                             else None))
                     else None))))"

fun re_search_action :: "string \<Rightarrow> string option" where
  "re_search_action [] = None"
| "re_search_action (c # cs) =
     (case match_action (c # cs) of
        Some g \<Rightarrow> Some g
      | None \<Rightarrow> re_search_action cs)"

text \<open>
  The result of the agent is the value it returns or the exception it raises, and with it the
  prompts it has sent to the language model, in order. \<open>generate llm p\<close> is
  \<open>llm.invoke(p).content.strip()\<close>.
\<close>

definition generate :: "llm \<Rightarrow> string \<Rightarrow> exn + string" where
  "generate llm prompt = (case llm prompt of Inl e \<Rightarrow> Inl e | Inr content \<Rightarrow> Inr (strip content))"

definition run_enhanced_agent ::
  "hash \<Rightarrow> retriever \<Rightarrow> llm \<Rightarrow> string \<Rightarrow> (exn + string) \<times> string list" where
  "run_enhanced_agent h invoke llm user_query =
     (let query_lower = lower user_query;
          should_search_directly = any_in factual_indicators query_lower
      in if should_search_directly then
           (let search_results = search_prospectus h invoke user_query
            in if \<not> found search_results then (Inr not_found_direct, [])
               else
                 (let answer_prompt =
                        direct_answer_prompt user_query (context_text search_results)
                  in (generate llm answer_prompt, [answer_prompt])))
         else
           (let system_prompt = decision_prompt user_query
            in case llm system_prompt of
                 Inl e \<Rightarrow> (Inl e, [system_prompt])
               | Inr response \<Rightarrow>
                   (case re_search_action response of
                      Some group1 \<Rightarrow>
                        (let search_query =
                               strip_chars (\<lambda>c. c = CHR 0x27)
                                 (strip_chars (\<lambda>c. c = CHR 0x22) (strip group1));
                             search_results = search_prospectus h invoke search_query
                         in if \<not> found search_results
                            then (Inr not_found_rephrase, [system_prompt])
                            else
                              (let answer_prompt =
                                     search_answer_prompt user_query
                                       (context_text search_results)
                               in (generate llm answer_prompt, [system_prompt, answer_prompt])))
                    | None \<Rightarrow>
                        (let response_lower = lower response
                         in if any_in refusal_phrases response_lower then
                              (let search_results = search_prospectus h invoke user_query
                               in if found search_results then
                                    (let prompt =
                                           fallback_prompt user_query
                                             (context_text search_results)
                                     in (generate llm prompt, [system_prompt, prompt]))
                                  else (Inr response, [system_prompt]))
                            else (Inr response, [system_prompt])))))"

section \<open>The guardrail and the entry point (agent.py, is_uet_related and process_query)\<close>

definition greetings :: "string list" where
  "greetings = [''hi'', ''hello'', ''hey'', ''greetings'', ''good morning'', ''good evening'',
                ''thanks'', ''thank you'']"

definition uet_keywords :: "string list" where
  "uet_keywords =
     [''uet'', ''university of engineering'', ''lahore'', ''taxila'', ''faisalabad'',
      ''department'', ''computer'', ''electrical'', ''mechanical'', ''civil'', ''chemical'',
      ''industrial'', ''architecture'', ''petroleum'', ''biomedical'', ''environmental'',
      ''textile'', ''metallurgy'', ''mining'', ''aerospace'', ''mathematics'', ''physics'',
      ''transportation'', ''geological'', ''geotechnical'', ''city planning'',
      ''regional planning'',
      ''course'', ''admission'', ''faculty'', ''fee'', ''program'', ''degree'', ''bachelor'',
      ''master'', ''phd'', ''msc'', ''bs'', ''engineering'', ''syllabus'', ''curriculum'',
      ''professor'', ''chairperson'', ''dean'', ''head of department'', ''hod'',
      ''scholarship'', ''campus'', ''hostel'', ''library'', ''artificial intelligence'']"

definition is_uet_related :: "string \<Rightarrow> bool" where
  "is_uet_related query =
     (let query_lower = lower query
      in if list_ex (\<lambda>g. startswith (strip query_lower) g) greetings
            \<and> length (str_split query_lower) \<le> 3
         then True
         else any_in uet_keywords query_lower)"





section \<open>The HTTP service (main.py)\<close>


text \<open>
  A \<open>ChatResponse\<close> without its \<open>processing_time\<close>, which is read from the clock, and the
  outcomes of a request.
\<close>

record chat_response =
  response :: string
  status :: string





section \<open>The scoring formula in the words of the specification\<close>

text \<open>
  The four additive terms of section 4.3, each on the lowercased query \<open>q\<close>, the lowercased
  chunk text \<open>c\<close> and the lowercased department tag. \<open>windows L ws\<close> are the contiguous
  windows of \<open>L\<close> words of \<open>ws\<close>, one for each start position.
\<close>

definition windows :: "nat \<Rightarrow> 'a list \<Rightarrow> 'a list list" where
  "windows L ws = map (\<lambda>i. take L (drop i ws)) [0..<length ws + 1 - L]"

definition spec_phrase_overlap :: "string \<Rightarrow> string \<Rightarrow> int" where
  "spec_phrase_overlap q c =
     (\<Sum>L\<leftarrow>[4, 3, 2]. \<Sum>w\<leftarrow>windows L (str_split q).
        if str_in (join '' '' w) c then int L * 10 else 0)"

definition spec_keyword_overlap :: "string \<Rightarrow> string \<Rightarrow> int" where
  "spec_keyword_overlap q c = 2 * int (card (set (str_split q) \<inter> set (str_split c)))"

definition spec_role_boost :: "string \<Rightarrow> string \<Rightarrow> int" where
  "spec_role_boost q c =
     (if \<exists>w \<in> set role_query_words. str_in w q
      then 15 * int (card {t \<in> set faculty_terms. str_in t c}) else 0)"

definition spec_dept_boost :: "string \<Rightarrow> string \<Rightarrow> string \<Rightarrow> int" where
  "spec_dept_boost q c tag =
     10 * int (card {f \<in> set dept_words. str_in f q \<and> (str_in f c \<or> str_in f tag)})"

section \<open>Stub collaborators and sample chunks\<close>

definition example_hash :: hash where
  "example_hash s = int (length s)"

definition empty_retriever :: retriever where
  "empty_retriever q = Inr []"


definition failing_llm :: llm where
  "failing_llm prompt = Inl (Exception ''connection refused'')"

definition chair_doc :: document where
  "chair_doc =
     \<lparr>page_content = ''Dr. Ali Khan, Chairperson, Department of Mathematics'',
      metadata = \<lparr>departments = Some ''General'', section_type = Some ''faculty'',
                  page = Some (PageInt 12)\<rparr>\<rparr>"

definition hostel_doc :: document where
  "hostel_doc =
     \<lparr>page_content = ''  The hostel has rooms. '',
      metadata = \<lparr>departments = None, section_type = None, page = None\<rparr>\<rparr>"

definition library_doc :: document where
  "library_doc =
     \<lparr>page_content = ''The library opens at nine.'',
      metadata = \<lparr>departments = Some ''General'', section_type = Some ''facilities'',
                  page = Some (PageStr ''unknown'')\<rparr>\<rparr>"

text \<open>Two chunks that agree on their first 100 characters and differ after them.\<close>

definition header_doc_one :: document where
  "header_doc_one =
     \<lparr>page_content = replicate 100 (CHR ''a'') @ '' one'',
      metadata = \<lparr>departments = Some ''General'', section_type = Some ''general_info'',
                  page = Some (PageInt 1)\<rparr>\<rparr>"

definition header_doc_two :: document where
  "header_doc_two =
     \<lparr>page_content = replicate 100 (CHR ''a'') @ '' two'',
      metadata = \<lparr>departments = Some ''General'', section_type = Some ''general_info'',
                  page = Some (PageInt 2)\<rparr>\<rparr>"

definition header_retriever :: retriever where
  "header_retriever q =
     (if q = ''first'' then Inr [header_doc_one] else Inr [header_doc_two, hostel_doc])"


section \<open>Facts about the string operations\<close>

lemma startswith_prefix: "startswith s p \<longleftrightarrow> prefix p s"
  by (induction s p rule: startswith.induct) auto

lemma str_in_sublist: "str_in sub s \<longleftrightarrow> sublist sub s"
  by (induction s) (auto simp: startswith_prefix sublist_Cons_right)

text \<open>A word without the character \<open>c\<close> cannot lie across a \<open>c\<close> that joins two strings.\<close>

lemma sublist_across:
  assumes "c \<notin> set w"
  shows "sublist w (a @ c # b) \<longleftrightarrow> sublist w a \<or> sublist w b"
proof
  assume "sublist w (a @ c # b)"
  then obtain ps ss where e: "a @ c # b = ps @ w @ ss"
    by (auto simp: sublist_def)
  then consider (l) us where "a = ps @ us" "us @ c # b = w @ ss"
    | (r) us where "a @ us = ps" "c # b = us @ w @ ss"
    by (auto simp: append_eq_append_conv2)
  then show "sublist w a \<or> sublist w b"
  proof cases
    case l
    from l(2) consider (ll) vs where "us = w @ vs" | (lr) vs where "us @ vs = w" "c # b = vs @ ss"
      by (auto simp: append_eq_append_conv2)
    then show ?thesis
    proof cases
      case ll
      with l(1) show ?thesis by (auto simp: sublist_def)
    next
      case lr
      show ?thesis
      proof (cases vs)
        case Nil
        with lr l(1) have "a = ps @ w @ []" by simp
        then have "sublist w a" unfolding sublist_def by blast
        then show ?thesis ..
      next
        case (Cons v vs')
        with lr assms show ?thesis by auto
      qed
    qed
  next
    case r
    show ?thesis
    proof (cases us)
      case Nil
      with r(2) assms have "w = []" by (cases w) auto
      then show ?thesis by simp
    next
      case (Cons u us')
      with r(2) have "b = us' @ w @ ss" by simp
      then show ?thesis by (auto simp: sublist_def)
    qed
  qed
next
  assume "sublist w a \<or> sublist w b"
  then show "sublist w (a @ c # b)"
  proof
    assume "sublist w a"
    then obtain ps ss where "a = ps @ w @ ss" by (auto simp: sublist_def)
    then have "a @ c # b = ps @ w @ (ss @ c # b)" by simp
    then show ?thesis unfolding sublist_def by blast
  next
    assume "sublist w b"
    then obtain ps ss where "b = ps @ w @ ss" by (auto simp: sublist_def)
    then have "a @ c # b = (a @ c # ps) @ w @ ss" by simp
    then show ?thesis unfolding sublist_def by blast
  qed
qed




section \<open>Facts about \<open>dict.fromkeys\<close>\<close>

lemma fromkeys_acc_char:
  "fromkeys_acc ks xs =
     ks @ map (\<lambda>i. xs ! i) (filter (\<lambda>i. xs ! i \<notin> set ks \<union> set (take i xs)) [0..<length xs])"
proof (induction xs arbitrary: ks)
  case Nil
  then show ?case by simp
next
  case (Cons x xs)
  have upt: "[0..<length (x # xs)] = 0 # map Suc [0..<length xs]"
    by (simp add: upt_conv_Cons map_Suc_upt del: upt_Suc)
  show ?case
    unfolding upt
    apply (simp add: Cons.IH filter_map comp_def del: upt_Suc)
    apply (intro conjI impI arg_cong[where f="map ((!) xs)"] filter_cong refl)
     apply auto
    done
qed

lemma fromkeys_first_seen:
  "fromkeys xs = map (\<lambda>i. xs ! i) (filter (\<lambda>i. xs ! i \<notin> set (take i xs)) [0..<length xs])"
  by (simp add: fromkeys_def fromkeys_acc_char)

lemma fromkeys_acc_set: "set (fromkeys_acc ks xs) = set ks \<union> set xs"
  by (induction xs arbitrary: ks) auto

lemma fromkeys_acc_distinct: "distinct ks \<Longrightarrow> distinct (fromkeys_acc ks xs)"
  by (induction xs arbitrary: ks) auto

lemma fromkeys_acc_prefix: "\<exists>r. fromkeys_acc ks xs = ks @ r"
  by (induction xs arbitrary: ks) (auto, metis append.assoc)

lemma fromkeys_set: "set (fromkeys xs) = set xs"
  by (simp add: fromkeys_def fromkeys_acc_set)

lemma fromkeys_distinct: "distinct (fromkeys xs)"
  by (simp add: fromkeys_def fromkeys_acc_distinct)

lemma fromkeys_Cons: "\<exists>r. fromkeys (x # xs) = x # r"
  using fromkeys_acc_prefix [of "[x]" xs] by (simp add: fromkeys_def)

section \<open>The relevance score\<close>

lemma fold_cond_add:
  "fold (\<lambda>x (s::int). if P x then s + k x else s) xs s0
   = s0 + (\<Sum>x\<leftarrow>xs. if P x then k x else 0)"
  by (induction xs arbitrary: s0) auto

lemma sum_list_cond_const:
  "(\<Sum>x\<leftarrow>xs. if P x then (c::int) else 0) = c * int (length (filter P xs))"
  by (induction xs) (auto simp: algebra_simps)

lemma card_filter_distinct:
  "distinct xs \<Longrightarrow> card {x \<in> set xs. P x} = length (filter P xs)"
  by (metis set_filter distinct_card distinct_filter)

lemma phrase_fold:
  "fold (\<lambda>len. fold (\<lambda>i score.
                      if str_in (join '' '' (take len (drop i ws))) c
                      then score + int len * 10 else score)
                (py_range (int (length ws) - int len + 1)))
     Ls (s0 :: int)
   = s0 + (\<Sum>L\<leftarrow>Ls. \<Sum>w\<leftarrow>windows L ws. if str_in (join '' '' w) c then int L * 10 else 0)"
proof (induction Ls arbitrary: s0)
  case Nil
  then show ?case by simp
next
  case (Cons L Ls)
  have "nat (int (length ws) - int L + 1) = length ws + 1 - L"
    by arith
  then have r: "py_range (int (length ws) - int L + 1) = [0..<length ws + 1 - L]"
    by (simp only: py_range_def)
  have inner: "fold (\<lambda>i score. if str_in (join '' '' (take L (drop i ws))) c
                                then score + int L * 10 else score)
                 (py_range (int (length ws) - int L + 1)) s0
               = s0 + (\<Sum>w\<leftarrow>windows L ws. if str_in (join '' '' w) c then int L * 10 else 0)"
    by (simp only: r fold_cond_add windows_def map_map comp_def)
  show ?case
    by (simp only: fold_simps Cons.IH inner list.map sum_list.Cons add.assoc)
qed

lemma role_fold:
  "fold (\<lambda>term score. if str_in term c then score + 15 else score) faculty_terms (s0 :: int)
   = s0 + 15 * int (card {t \<in> set faculty_terms. str_in t c})"
proof -
  have d: "distinct faculty_terms"
    by (simp add: faculty_terms_def)
  show ?thesis
    by (simp only: fold_cond_add sum_list_cond_const card_filter_distinct [OF d])
qed

lemma dept_fold:
  "fold (\<lambda>dept_word score.
           if str_in dept_word q \<and> str_in dept_word (c @ '' '' @ tag)
           then score + 10 else score) dept_words (s0 :: int)
   = s0 + 10 * int (card {f \<in> set dept_words. str_in f q \<and> (str_in f c \<or> str_in f tag)})"
proof -
  have d: "distinct dept_words"
    by (simp add: dept_words_def)
  have sp: "\<And>f. f \<in> set dept_words \<Longrightarrow> CHR '' '' \<notin> set f"
    by (auto simp: dept_words_def)
  have eq: "filter (\<lambda>f. str_in f q \<and> str_in f (c @ '' '' @ tag)) dept_words
          = filter (\<lambda>f. str_in f q \<and> (str_in f c \<or> str_in f tag)) dept_words"
    by (rule filter_cong) (auto simp: str_in_sublist sublist_across [OF sp])
  show ?thesis
    by (simp only: fold_cond_add sum_list_cond_const eq card_filter_distinct [OF d])
qed

text \<open>
  C1. The score that the re-ranker computes for a chunk is the sum of the four terms of the
  specification: 10 times \<open>L\<close> for every window of \<open>L\<close> = 4, 3, 2 query words whose joined text
  occurs in the chunk text; 2 for every word that query and chunk text share; if the query
  contains a role word, 15 for every role term that occurs in the chunk text; and 10 for
  every department fragment that occurs in the query and in the chunk text or its department
  tag. All tests are made on the lowercased query, chunk text and tag.
\<close>

theorem relevance_score_formula:
  "relevance_score query doc =
     spec_phrase_overlap (lower query) (lower (page_content doc))
     + spec_keyword_overlap (lower query) (lower (page_content doc))
     + spec_role_boost (lower query) (lower (page_content doc))
     + spec_dept_boost (lower query) (lower (page_content doc))
         (lower (case departments (metadata doc) of None \<Rightarrow> [] | Some d \<Rightarrow> d))"
  unfolding relevance_score_def Let_def
    spec_phrase_overlap_def spec_keyword_overlap_def spec_role_boost_def spec_dept_boost_def
  by (simp only: phrase_fold role_fold dept_fold any_in_def list_ex_iff) simp

text \<open>
  The example of section 8 of the specification: the chunk naming Dr. Ali Khan scores
  0 + 2 + 30 + 10 = 42 for the query \<open>mathematics chairperson\<close>.
\<close>

theorem relevance_score_formula_witness:
  "relevance_score ''mathematics chairperson'' chair_doc = 42
   \<and> spec_phrase_overlap (lower ''mathematics chairperson'') (lower (page_content chair_doc))
       + spec_keyword_overlap (lower ''mathematics chairperson'') (lower (page_content chair_doc))
       + spec_role_boost (lower ''mathematics chairperson'') (lower (page_content chair_doc))
       + spec_dept_boost (lower ''mathematics chairperson'') (lower (page_content chair_doc))
           (lower (case departments (metadata chair_doc) of None \<Rightarrow> [] | Some d \<Rightarrow> d))
       = 42"
proof -
  have ev: "relevance_score ''mathematics chairperson'' chair_doc = 42"
    by code_simp
  from relevance_score_formula [of "''mathematics chairperson''" chair_doc] ev
  show ?thesis
    by simp
qed

section \<open>The ranking\<close>

lemma insort_key_scored:
  "insort_key (\<lambda>x. - fst x) (s d, d) (map (\<lambda>d. (s d, d)) ys)
   = map (\<lambda>d. (s d, d)) (insort_key (\<lambda>d. - s d) d ys)"
  by (induction ys) auto

lemma sort_key_scored:
  "sort_key (\<lambda>x. - fst x) (map (\<lambda>d. (s d, d)) xs)
   = map (\<lambda>d. (s d, d)) (sort_key (\<lambda>d. - s d) xs)"
  by (induction xs) (auto simp: insort_key_scored)

lemma rerank_take:
  "rerank query all_docs = take 6 (sort_reverse (relevance_score query) all_docs)"
  by (simp add: rerank_def sort_reverse_def sort_key_scored take_map comp_def)

lemma rerank_length: "length (rerank query all_docs) = min 6 (length all_docs)"
  by (simp add: rerank_def sort_reverse_def)

lemma filter_take_prefix: "prefix (filter P (take n xs)) (filter P xs)"
proof -
  have "filter P xs = filter P (take n xs) @ filter P (drop n xs)"
    by (metis append_take_drop_id filter_append)
  then show ?thesis by (metis prefixI)
qed

text \<open>
  C2. The re-ranker returns the first 6 entries of the chunks sorted by score: that sorted
  list is a permutation of the chunks, in non-increasing order of score, and the chunks of
  any one score stand in it in their original order. So the result is itself in
  non-increasing order, its chunks of any one score are an initial part of the original
  ones of that score, it has \<open>min 6 n\<close> entries for \<open>n\<close> chunks, and with at most 6 chunks it
  is the whole sorted list.
\<close>

theorem rerank_sorted_stable_top6:
  "rerank query all_docs = take 6 (sort_reverse (relevance_score query) all_docs)
   \<and> mset (sort_reverse (relevance_score query) all_docs) = mset all_docs
   \<and> sorted_wrt (\<lambda>a b. relevance_score query b \<le> relevance_score query a)
        (sort_reverse (relevance_score query) all_docs)
   \<and> (\<forall>k. filter (\<lambda>d. relevance_score query d = k)
              (sort_reverse (relevance_score query) all_docs)
          = filter (\<lambda>d. relevance_score query d = k) all_docs)
   \<and> sorted_wrt (\<lambda>a b. relevance_score query b \<le> relevance_score query a)
        (rerank query all_docs)
   \<and> (\<forall>k. prefix (filter (\<lambda>d. relevance_score query d = k) (rerank query all_docs))
                 (filter (\<lambda>d. relevance_score query d = k) all_docs))
   \<and> length (rerank query all_docs) = min 6 (length all_docs)
   \<and> (length all_docs \<le> 6 \<longrightarrow>
        rerank query all_docs = sort_reverse (relevance_score query) all_docs)"
proof -
  let ?s = "relevance_score query"
  let ?ranked = "sort_reverse ?s all_docs"
  have t: "rerank query all_docs = take 6 ?ranked"
    by (rule rerank_take)
  have m: "mset ?ranked = mset all_docs"
    by (simp add: sort_reverse_def)
  have "sorted (map (\<lambda>d. - ?s d) ?ranked)"
    unfolding sort_reverse_def by (rule sorted_sort_key)
  then have so: "sorted_wrt (\<lambda>a b. ?s b \<le> ?s a) ?ranked"
    by (simp add: sorted_map)
  have st: "filter (\<lambda>d. ?s d = k) ?ranked = filter (\<lambda>d. ?s d = k) all_docs" for k
    using sort_key_stable [of "\<lambda>d. - ?s d" "- k" all_docs]
    by (simp add: sort_reverse_def)
  have so6: "sorted_wrt (\<lambda>a b. ?s b \<le> ?s a) (rerank query all_docs)"
    unfolding t using so by (rule sorted_wrt_take)
  have st6: "prefix (filter (\<lambda>d. ?s d = k) (rerank query all_docs))
               (filter (\<lambda>d. ?s d = k) all_docs)" for k
    unfolding t using filter_take_prefix [of "\<lambda>d. ?s d = k" 6 ?ranked] by (simp only: st)
  have l: "length (rerank query all_docs) = min 6 (length all_docs)"
    by (rule rerank_length)
  have a: "length all_docs \<le> 6 \<longrightarrow> rerank query all_docs = ?ranked"
    by (simp add: t sort_reverse_def)
  from t m so st so6 st6 l a show ?thesis by blast
qed

text \<open>
  Three chunks with scores 0, 42 and 0: the chunk that scores 42 comes first and the two
  that score 0 keep their order.
\<close>

theorem rerank_sorted_stable_top6_witness:
  "length [hostel_doc, chair_doc, library_doc] \<le> 6
   \<and> map (relevance_score ''mathematics chairperson'') [hostel_doc, chair_doc, library_doc]
       = [0, 42, 0]
   \<and> rerank ''mathematics chairperson'' [hostel_doc, chair_doc, library_doc]
       = [chair_doc, hostel_doc, library_doc]
   \<and> sort_reverse (relevance_score ''mathematics chairperson'')
         [hostel_doc, chair_doc, library_doc]
       = [chair_doc, hostel_doc, library_doc]"
proof -
  have h: "length [hostel_doc, chair_doc, library_doc] \<le> 6"
    by simp
  have sc: "map (relevance_score ''mathematics chairperson'') [hostel_doc, chair_doc, library_doc]
            = [0, 42, 0]"
    by code_simp
  have ev: "rerank ''mathematics chairperson'' [hostel_doc, chair_doc, library_doc]
            = [chair_doc, hostel_doc, library_doc]"
    by code_simp
  from rerank_sorted_stable_top6 [of "''mathematics chairperson''"
      "[hostel_doc, chair_doc, library_doc]"] h
  have "rerank ''mathematics chairperson'' [hostel_doc, chair_doc, library_doc]
        = sort_reverse (relevance_score ''mathematics chairperson'')
            [hostel_doc, chair_doc, library_doc]"
    by blast
  with h sc ev show ?thesis
    by simp
qed

section \<open>Query expansion\<close>

lemma expand_candidates_shape:
  "\<exists>rest. expand_candidates q = q # rest \<and> [] \<notin> set rest"
  by (auto simp: expand_candidates_def Let_def split: option.splits)

text \<open>
  C3, as the code has it. For the input
  \<open>Who is the chairperson of the mathematics department?\<close> department detection fires on
  \<open>mathematics\<close> and the candidates are the query, its \<open>faculty list\<close> and \<open>staff members\<close>
  variants, \<open>mathematics department faculty\<close> and \<open>mathematics chairperson head\<close>, in this
  order. expand_query returns the first four of them: the fifth,
  \<open>mathematics chairperson head\<close>, is cut off by the limit of 4 entries.
\<close>

theorem expand_query_example:
  "expand_query ''Who is the chairperson of the mathematics department?'' =
     [''Who is the chairperson of the mathematics department?'',
      ''faculty list Who is the chairperson of the mathematics department?'',
      ''staff members Who is the chairperson of the mathematics department?'',
      ''mathematics department faculty'']
   \<and> expand_candidates ''Who is the chairperson of the mathematics department?'' =
     [''Who is the chairperson of the mathematics department?'',
      ''faculty list Who is the chairperson of the mathematics department?'',
      ''staff members Who is the chairperson of the mathematics department?'',
      ''mathematics department faculty'', ''mathematics chairperson head'']
   \<and> first_in expansion_depts (lower ''Who is the chairperson of the mathematics department?'')
       = Some ''mathematics''"
  by code_simp

text \<open>The entry \<open>mathematics chairperson head\<close> is not in the list that is returned.\<close>

theorem expand_query_example_counterexample:
  "''mathematics chairperson head''
     \<notin> set (expand_query ''Who is the chairperson of the mathematics department?'')"
  by code_simp

text \<open>
  C4, as the code has it. For every non-empty query, expand_query returns between 1 and 4
  pairwise distinct non-empty strings; the first is the query exactly as it was passed
  (expand_query does not trim it); and the list is the first 4 of the candidates with
  every repetition of an earlier candidate left out, in their order.
\<close>

theorem expand_query_shape:
  assumes "original_query \<noteq> []"
  shows "1 \<le> length (expand_query original_query)
       \<and> length (expand_query original_query) \<le> 4
       \<and> distinct (expand_query original_query)
       \<and> [] \<notin> set (expand_query original_query)
       \<and> hd (expand_query original_query) = original_query
       \<and> expand_query original_query =
           take 4 (map (\<lambda>i. expand_candidates original_query ! i)
                    (filter (\<lambda>i. expand_candidates original_query ! i
                                   \<notin> set (take i (expand_candidates original_query)))
                       [0..<length (expand_candidates original_query)]))"
proof -
  obtain rest where c: "expand_candidates original_query = original_query # rest"
    and ne: "[] \<notin> set rest"
    using expand_candidates_shape by blast
  obtain r where f: "fromkeys (expand_candidates original_query) = original_query # r"
    using fromkeys_Cons [of original_query rest] c by auto
  have e: "expand_query original_query = original_query # take 3 r"
    by (simp add: expand_query_def f)
  have d: "distinct (expand_query original_query)"
    unfolding expand_query_def by (rule distinct_take) (rule fromkeys_distinct)
  have "set (expand_query original_query) \<subseteq> set (expand_candidates original_query)"
    unfolding expand_query_def using set_take_subset [of 4] fromkeys_set by fastforce
  then have n: "[] \<notin> set (expand_query original_query)"
    using c ne assms by auto
  have fs: "expand_query original_query =
           take 4 (map (\<lambda>i. expand_candidates original_query ! i)
                    (filter (\<lambda>i. expand_candidates original_query ! i
                                   \<notin> set (take i (expand_candidates original_query)))
                       [0..<length (expand_candidates original_query)]))"
    unfolding expand_query_def by (simp only: fromkeys_first_seen)
  have l: "1 \<le> length (expand_query original_query)
           \<and> length (expand_query original_query) \<le> 4"
    by (simp add: e)
  have h: "hd (expand_query original_query) = original_query"
    by (simp add: e)
  from l d n h fs show ?thesis by blast
qed

theorem expand_query_shape_witness:
  "''dean of civil'' \<noteq> []
   \<and> expand_query ''dean of civil'' =
       [''dean of civil'', ''faculty list dean of civil'', ''staff members dean of civil'',
        ''civil department faculty'']
   \<and> hd (expand_query ''dean of civil'') = ''dean of civil''
   \<and> distinct (expand_query ''dean of civil'')"
proof -
  have h: "''dean of civil'' \<noteq> []"
    by simp
  have ev: "expand_query ''dean of civil'' =
       [''dean of civil'', ''faculty list dean of civil'', ''staff members dean of civil'',
        ''civil department faculty'']"
    by code_simp
  from expand_query_shape [OF h] ev show ?thesis
    by blast
qed

text \<open>
  A query with a leading blank comes back with its blank: the first entry is not the
  trimmed query.
\<close>

theorem expand_query_untrimmed_counterexample:
  "hd (expand_query '' a'') \<noteq> strip '' a''"
  by code_simp

section \<open>Deduplication across the expanded queries\<close>

lemma dedup_docs_char:
  "\<exists>R. dedup_docs h ds (acc, seen)
         = (acc @ R, seen \<union> (\<lambda>d. h (take 100 (page_content d))) ` set ds)
     \<and> subseq R ds
     \<and> (\<forall>k. filter (\<lambda>e. h (take 100 (page_content e)) = k) R
            = (if k \<in> seen then []
               else case find (\<lambda>e. h (take 100 (page_content e)) = k) ds of
                      None \<Rightarrow> [] | Some e \<Rightarrow> [e]))"
proof (induction ds arbitrary: acc seen)
  case Nil
  then show ?case by simp
next
  case (Cons d ds)
  let ?g = "\<lambda>d. h (take 100 (page_content d))"
  show ?case
  proof (cases "?g d \<in> seen")
    case True
    from Cons.IH [of acc seen] obtain R where
      R: "dedup_docs h ds (acc, seen) = (acc @ R, seen \<union> ?g ` set ds)" "subseq R ds"
         "\<forall>k. filter (\<lambda>e. ?g e = k) R
            = (if k \<in> seen then []
               else case find (\<lambda>e. ?g e = k) ds of None \<Rightarrow> [] | Some e \<Rightarrow> [e])"
      by blast
    show ?thesis
      apply (rule exI [of _ R])
      using True R by (auto simp: Let_def)
  next
    case False
    from Cons.IH [of "acc @ [d]" "insert (?g d) seen"] obtain R where
      R: "dedup_docs h ds (acc @ [d], insert (?g d) seen)
            = ((acc @ [d]) @ R, insert (?g d) seen \<union> ?g ` set ds)"
         "subseq R ds"
         "\<forall>k. filter (\<lambda>e. ?g e = k) R
            = (if k \<in> insert (?g d) seen then []
               else case find (\<lambda>e. ?g e = k) ds of None \<Rightarrow> [] | Some e \<Rightarrow> [e])"
      by blast
    show ?thesis
      apply (rule exI [of _ "d # R"])
      using False R by (auto simp: Let_def)
  qed
qed

lemma dedup_docs_append:
  "dedup_docs h (xs @ ys) st = dedup_docs h ys (dedup_docs h xs st)"
  by (induction h xs st rule: dedup_docs.induct) (auto simp: Let_def)

lemma retrieve_all_stream:
  "list_all2 (\<lambda>q docs. invoke q = Inr docs) queries retrieved \<Longrightarrow>
   retrieve_all h invoke queries st = Inr (dedup_docs h (concat retrieved) st)"
proof (induction queries retrieved arbitrary: st rule: list_all2_induct)
  case Nil
  then show ?case by simp
next
  case (Cons q qs docs rs)
  then show ?case by (simp add: dedup_docs_append)
qed

lemma filter_filter_le:
  assumes "\<And>x. P x \<Longrightarrow> Q x"
  shows "length (filter P xs) \<le> length (filter Q xs)"
proof -
  have "filter P xs = filter P (filter Q xs)"
    using assms by (induction xs) auto
  then show ?thesis
    by (metis length_filter_le)
qed

text \<open>
  C5. Let the retrieval of every expanded query succeed, let \<open>stream\<close> be the chunks it
  yields, in order over all queries, and let \<open>key\<close> be the first 100 characters of a chunk's
  text. Then the unique collection is a subsequence of \<open>stream\<close>, and for any two chunks of
  \<open>stream\<close> with the same \<open>key\<close>, whatever follows the first 100 characters, it has exactly
  one entry with their hashed key: the first chunk of \<open>stream\<close> with that hashed key. No two
  entries of the collection have the same \<open>key\<close>. When the hash does not collide on the keys
  of \<open>stream\<close>, that one entry is the first chunk of \<open>stream\<close> with the same first 100
  characters. This holds for every hash function.
\<close>

theorem cross_query_dedup:
  assumes "list_all2 (\<lambda>q docs. invoke q = Inr docs) queries retrieved"
  shows "let key = (\<lambda>d. take 100 (page_content d)); stream = concat retrieved
         in \<exists>all_docs seen_content.
              retrieve_all h invoke queries ([], {}) = Inr (all_docs, seen_content)
            \<and> subseq all_docs stream
            \<and> (\<forall>a \<in> set stream. \<forall>b \<in> set stream. key a = key b \<longrightarrow>
                  (\<exists>e. find (\<lambda>x. h (key x) = h (key a)) stream = Some e
                     \<and> filter (\<lambda>x. h (key x) = h (key a)) all_docs = [e]
                     \<and> filter (\<lambda>x. h (key x) = h (key b)) all_docs = [e]))
            \<and> (\<forall>p. length (filter (\<lambda>x. key x = p) all_docs) \<le> 1)
            \<and> (inj_on h (key ` set stream) \<longrightarrow>
                  (\<forall>a \<in> set stream.
                     \<exists>e. find (\<lambda>x. key x = key a) stream = Some e
                       \<and> filter (\<lambda>x. key x = key a) all_docs = [e]))"
proof -
  let ?key = "\<lambda>d. take 100 (page_content d)"
  let ?g = "\<lambda>d. h (?key d)"
  let ?stream = "concat retrieved"
  obtain R where d: "dedup_docs h ?stream ([], {}) = (R, ?g ` set ?stream)"
    and sub: "subseq R ?stream"
    and ch: "\<And>k. filter (\<lambda>e. ?g e = k) R
               = (case find (\<lambda>e. ?g e = k) ?stream of None \<Rightarrow> [] | Some e \<Rightarrow> [e])"
    using dedup_docs_char [of h ?stream "[]" "{}"] by auto
  have r: "retrieve_all h invoke queries ([], {}) = Inr (R, ?g ` set ?stream)"
    using retrieve_all_stream [OF assms, of h "([], {})"] d by simp
  have one: "\<exists>e. find (\<lambda>x. ?g x = ?g a) ?stream = Some e \<and> filter (\<lambda>x. ?g x = ?g a) R = [e]"
    if "a \<in> set ?stream" for a
  proof -
    from that obtain e where "find (\<lambda>x. ?g x = ?g a) ?stream = Some e"
      by (cases "find (\<lambda>x. ?g x = ?g a) ?stream") (auto simp: find_None_iff)
    then show ?thesis using ch [of "?g a"] by simp
  qed
  have two: "\<exists>e. find (\<lambda>x. ?g x = ?g a) ?stream = Some e
                \<and> filter (\<lambda>x. ?g x = ?g a) R = [e] \<and> filter (\<lambda>x. ?g x = ?g b) R = [e]"
    if "a \<in> set ?stream" "b \<in> set ?stream" "?key a = ?key b" for a b
    using one [OF that(1)] that(3) by simp
  have atmost: "length (filter (\<lambda>x. ?key x = p) R) \<le> 1" for p
  proof -
    have "length (filter (\<lambda>x. ?key x = p) R) \<le> length (filter (\<lambda>x. ?g x = h p) R)"
      by (rule filter_filter_le) simp
    also have "\<dots> \<le> 1"
      using ch [of "h p"] by (simp split: option.splits)
    finally show ?thesis .
  qed
  have inj: "\<exists>e. find (\<lambda>x. ?key x = ?key a) ?stream = Some e
                \<and> filter (\<lambda>x. ?key x = ?key a) R = [e]"
    if i: "inj_on h (?key ` set ?stream)" and a: "a \<in> set ?stream" for a
  proof -
    have eq: "?g x = ?g a \<longleftrightarrow> ?key x = ?key a" if "x \<in> set ?stream" for x
      using i a that by (auto dest: inj_onD)
    have "set R \<subseteq> set ?stream"
      using sub by (auto dest: list_emb_set)
    then have f: "filter (\<lambda>x. ?key x = ?key a) R = filter (\<lambda>x. ?g x = ?g a) R"
      by (intro filter_cong refl) (use eq in blast)
    have g: "find (\<lambda>x. ?key x = ?key a) ?stream = find (\<lambda>x. ?g x = ?g a) ?stream"
      by (rule find_cong) (use eq in auto)
    show ?thesis
      unfolding f g by (rule one [OF a])
  qed
  show ?thesis
    unfolding Let_def
    apply (rule exI [of _ R])
    apply (rule exI [of _ "?g ` set ?stream"])
    using r sub two atmost inj by blast
qed

text \<open>
  Two queries; the first yields a chunk of 104 characters, the second a chunk with the
  same first 100 characters and another ending, and a third chunk. The second chunk is
  dropped and the first is kept.
\<close>

theorem cross_query_dedup_witness:
  "list_all2 (\<lambda>q docs. header_retriever q = Inr docs) [''first'', ''second'']
     [[header_doc_one], [header_doc_two, hostel_doc]]
   \<and> take 100 (page_content header_doc_one) = take 100 (page_content header_doc_two)
   \<and> page_content header_doc_one \<noteq> page_content header_doc_two
   \<and> retrieve_all example_hash header_retriever [''first'', ''second''] ([], {})
       = Inr ([header_doc_one, hostel_doc], {100, 24})
   \<and> filter (\<lambda>x. take 100 (page_content x) = take 100 (page_content header_doc_two))
        [header_doc_one, hostel_doc] = [header_doc_one]"
proof -
  have h: "list_all2 (\<lambda>q docs. header_retriever q = Inr docs) [''first'', ''second'']
             [[header_doc_one], [header_doc_two, hostel_doc]]"
    by (simp add: header_retriever_def)
  have k: "take 100 (page_content header_doc_one) = take 100 (page_content header_doc_two)"
    by (simp add: header_doc_one_def header_doc_two_def)
  have n: "page_content header_doc_one \<noteq> page_content header_doc_two"
    by (simp add: header_doc_one_def header_doc_two_def)
  have ev: "retrieve_all example_hash header_retriever [''first'', ''second''] ([], {})
              = Inr ([header_doc_one, hostel_doc], {100, 24})"
    by code_simp
  have i: "inj_on example_hash ((\<lambda>d. take 100 (page_content d))
             ` set (concat [[header_doc_one], [header_doc_two, hostel_doc]]))"
    by (auto simp: inj_on_def example_hash_def header_doc_one_def header_doc_two_def
        hostel_doc_def)
  from cross_query_dedup [OF h, of example_hash] ev i
  have "\<exists>e. find (\<lambda>x. take 100 (page_content x) = take 100 (page_content header_doc_two))
               (concat [[header_doc_one], [header_doc_two, hostel_doc]]) = Some e
          \<and> filter (\<lambda>x. take 100 (page_content x) = take 100 (page_content header_doc_two))
               [header_doc_one, hostel_doc] = [e]"
    unfolding Let_def by auto
  then have "filter (\<lambda>x. take 100 (page_content x) = take 100 (page_content header_doc_two))
               [header_doc_one, hostel_doc] = [header_doc_one]"
    using k by auto
  with h k n ev show ?thesis
    by blast
qed

section \<open>The search result\<close>



lemma retrieve_all_empty:
  "list_all (\<lambda>q. invoke q = Inr []) queries \<Longrightarrow> retrieve_all h invoke queries st = Inr st"
  by (induction queries) auto

lemma search_zero_chunks:
  "list_all (\<lambda>q. invoke q = Inr []) (expand_query query) \<Longrightarrow>
   \<not> found (search_prospectus h invoke query)"
  by (simp add: search_prospectus_def retrieve_all_empty)



section \<open>The orchestrator\<close>

text \<open>
  C7. When the query contains a factual indicator and the search result has \<open>found\<close> false,
  the orchestrator returns the fixed message of line 218 and sends no prompt to the
  language model.
\<close>

theorem direct_search_not_found:
  assumes "any_in factual_indicators (lower user_query)"
    and "\<not> found (search_prospectus h invoke user_query)"
  shows "run_enhanced_agent h invoke llm user_query = (Inr not_found_direct, [])"
  using assms by (simp add: run_enhanced_agent_def)

text \<open>
  The query \<open>who is the dean\<close> with an index that yields no chunk; the language model of
  this run would raise if it were called.
\<close>

theorem direct_search_not_found_witness:
  "any_in factual_indicators (lower ''who is the dean'')
   \<and> list_all (\<lambda>q. empty_retriever q = Inr []) (expand_query ''who is the dean'')
   \<and> \<not> found (search_prospectus example_hash empty_retriever ''who is the dean'')
   \<and> run_enhanced_agent example_hash empty_retriever failing_llm ''who is the dean''
       = (Inr not_found_direct, [])"
proof -
  have a: "any_in factual_indicators (lower ''who is the dean'')"
    by code_simp
  have z: "list_all (\<lambda>q. empty_retriever q = Inr []) (expand_query ''who is the dean'')"
    by (simp add: empty_retriever_def list_all_iff)
  have n: "\<not> found (search_prospectus example_hash empty_retriever ''who is the dean'')"
    using z by (rule search_zero_chunks)
  from direct_search_not_found [OF a n, of failing_llm] a z n show ?thesis
    by blast
qed

section \<open>The guardrail\<close>

text \<open>
  C6. The guardrail accepts \<open>hi\<close> by its greeting test (the text starts with a greeting and
  has at most 3 words; it contains no domain keyword), rejects
  \<open>What's the capital of France?\<close> (no greeting at its start, no domain keyword) and
  accepts \<open>admission requirements for civil engineering\<close> (a domain keyword occurs). It is a
  function of the query alone.
\<close>

theorem guardrail_examples:
  "is_uet_related ''hi''
   \<and> list_ex (\<lambda>g. startswith (strip (lower ''hi'')) g) greetings
   \<and> length (str_split (lower ''hi'')) \<le> 3
   \<and> \<not> any_in uet_keywords (lower ''hi'')
   \<and> \<not> is_uet_related ''What's the capital of France?''
   \<and> \<not> list_ex (\<lambda>g. startswith (strip (lower ''What's the capital of France?'')) g) greetings
   \<and> \<not> any_in uet_keywords (lower ''What's the capital of France?'')
   \<and> is_uet_related ''admission requirements for civil engineering''
   \<and> any_in uet_keywords (lower ''admission requirements for civil engineering'')"
  by code_simp

text \<open>
  C9. The greeting test compares characters, not words: a query of at most 3 words whose
  trimmed lowercased text starts with the characters of a greeting is accepted, whatever
  follows them.
\<close>

theorem greeting_prefix_accepted:
  assumes "length (str_split (lower query)) \<le> 3"
    and "list_ex (\<lambda>g. startswith (strip (lower query)) g) greetings"
  shows "is_uet_related query"
  using assms by (simp add: is_uet_related_def)

text \<open>
  The query \<open>Hiking trip today\<close> has 3 words, starts with \<open>hi\<close> inside the word \<open>hiking\<close>
  and contains no domain keyword; it is accepted.
\<close>

theorem greeting_prefix_accepted_witness:
  "length (str_split (lower ''Hiking trip today'')) \<le> 3
   \<and> startswith (strip (lower ''Hiking trip today'')) ''hi''
   \<and> list_ex (\<lambda>g. startswith (strip (lower ''Hiking trip today'')) g) greetings
   \<and> \<not> any_in uet_keywords (lower ''Hiking trip today'')
   \<and> is_uet_related ''Hiking trip today''"
proof -
  have l: "length (str_split (lower ''Hiking trip today'')) \<le> 3"
    by code_simp
  have p: "startswith (strip (lower ''Hiking trip today'')) ''hi''"
    by code_simp
  have g: "list_ex (\<lambda>g. startswith (strip (lower ''Hiking trip today'')) g) greetings"
    by code_simp
  have k: "\<not> any_in uet_keywords (lower ''Hiking trip today'')"
    by code_simp
  from greeting_prefix_accepted [OF l g] l p g k show ?thesis
    by blast
qed

section \<open>The service boundary\<close>





end
